theory Spec2Isabelle
  imports Main "HOL-Library.AList"
begin

section \<open>Site records and the registry (src/lib/jekyll-manager.ts)\<close>

text \<open>
  The interfaces \<open>JekyllSite\<close> and \<open>BuildResult\<close>. The field \<open>id\<close> is called
  \<open>siteId\<close> here (the name \<open>id\<close> is HOL's identity function) and \<open>output\<close> is written
  \<open>output'\<close> (a keyword of the theory language). Dates are clock readings in
  milliseconds. An optional field is an \<open>option\<close>: \<open>None\<close> is JavaScript's \<open>undefined\<close>.
\<close>

datatype site_status = Creating | Ready | Building | Serving | Error

record JekyllSite =
  siteId :: string
  name :: string
  path :: string
  status :: site_status
  port :: "int option"
  createdAt :: int
  lastBuilt :: "int option"

record BuildResult =
  success :: bool
  output' :: string
  error :: "string option"
  buildTime :: int

text \<open>
  What \<open>execAsync\<close> does is outside the program: the promise resolves with the captured
  streams (exit code 0), or it rejects with an error object that may carry \<open>stdout\<close> and
  \<open>stderr\<close> and always has a \<open>message\<close> (non-zero exit, spawn failure, the 120 s timeout).
  The outcome is an input of every operation that runs a command.
\<close>

record exec_error =
  err_stdout :: "string option"
  err_stderr :: "string option"
  err_message :: string

datatype exec_outcome = Resolved string string | Rejected exec_error

text \<open>The commands handed to \<open>execAsync\<close>, in the order they were started.\<close>

datatype command =
    DockerBuild string
  | DockerServe string int
  | DockerDown

text \<open>Everything the manager throws: \<open>new Error('Site not found')\<close>, a rethrown command
  error, or a failure of the file system calls.\<close>

datatype fault = SiteNotFound | CommandFailed exec_error | FsFailed

text \<open>
  The events of the \<open>EventEmitter\<close>. Listeners run synchronously inside \<open>emit\<close>, so the
  payload is the site record as it is at that moment. \<open>fileChanged\<close> carries the site
  object the watcher closed over, represented by its id, and the changed path.
\<close>

datatype event =
    SiteStatusChanged JekyllSite
  | SiteCreated JekyllSite
  | SiteBuilt JekyllSite
  | SiteServing JekyllSite
  | SiteStopped JekyllSite
  | SiteDeleted JekyllSite
  | FileChanged string string
  | FileUpdated string string string

text \<open>
  One chokidar watcher made by \<open>setupFileWatcher\<close>: the id of the site it was made for,
  whether it is still open, and whether the listener that \<open>this.once('siteStopped', ...)\<close>
  registered for it is still registered.
\<close>

record watcher =
  w_site :: string
  w_open :: bool
  w_listening :: bool

text \<open>
  The state of one \<open>JekyllManager\<close>. \<open>sites\<close> is the \<open>Map\<close>, kept as an association list in
  insertion order (the order \<open>Array.from(this.sites.values())\<close> walks); \<open>emitted\<close> and
  \<open>commands\<close> log every \<open>emit\<close> and every command started. An operation is taken as a
  whole: what other operations could do while it awaits its command is not modelled.
\<close>

record manager =
  sites :: "(string \<times> JekyllSite) list"
  emitted :: "event list"
  watchers :: "watcher list"
  commands :: "command list"

definition new_manager :: manager where
  "new_manager = \<lparr>sites = [], emitted = [], watchers = [], commands = []\<rparr>"

definition getSite :: "manager \<Rightarrow> string \<Rightarrow> JekyllSite option" where
  "getSite m i = map_of (sites m) i"

definition getAllSites :: "manager \<Rightarrow> JekyllSite list" where
  "getAllSites m = map snd (sites m)"

text \<open>\<open>this.sites.set(siteId, site)\<close>: a present key keeps its place, a new one goes last.\<close>

definition sites_set :: "string \<Rightarrow> JekyllSite \<Rightarrow> manager \<Rightarrow> manager" where
  "sites_set i s m = m\<lparr>sites := AList.update i s (sites m)\<rparr>"

definition sites_delete :: "string \<Rightarrow> manager \<Rightarrow> manager" where
  "sites_delete i m = m\<lparr>sites := AList.delete i (sites m)\<rparr>"

text \<open>
  The listener of \<open>setupFileWatcher\<close>, registered with \<open>once\<close>: the first \<open>siteStopped\<close>
  event after its registration removes it, whichever site the event is about, and it
  closes its watcher only when the ids agree.
\<close>

definition on_siteStopped :: "string \<Rightarrow> watcher \<Rightarrow> watcher" where
  "on_siteStopped stopped w =
     (if w_listening w
      then w\<lparr>w_open := (if stopped = w_site w then False else w_open w),
              w_listening := False\<rparr>
      else w)"

definition emit :: "event \<Rightarrow> manager \<Rightarrow> manager" where
  "emit ev m =
     (let m' = m\<lparr>emitted := emitted m @ [ev]\<rparr>
      in case ev of
           SiteStopped s \<Rightarrow> m'\<lparr>watchers := map (on_siteStopped (siteId s)) (watchers m')\<rparr>
         | _ \<Rightarrow> m')"

definition setupFileWatcher :: "JekyllSite \<Rightarrow> manager \<Rightarrow> manager" where
  "setupFileWatcher s m =
     m\<lparr>watchers := watchers m @ [\<lparr>w_site = siteId s, w_open = True, w_listening = True\<rparr>]\<rparr>"

text \<open>chokidar reports a change of file \<open>fp\<close> to watcher number \<open>k\<close>; a closed watcher
  reports nothing.\<close>

definition watcher_change :: "nat \<Rightarrow> string \<Rightarrow> manager \<Rightarrow> manager" where
  "watcher_change k fp m =
     (if k < length (watchers m) \<and> w_open (watchers m ! k)
      then emit (FileChanged (w_site (watchers m ! k)) fp) m
      else m)"

subsection \<open>findAvailablePort\<close>

text \<open>The \<open>while (usedPorts.includes(port)) port++\<close> loop.\<close>

function port_loop :: "int list \<Rightarrow> int \<Rightarrow> int" where
  "port_loop usedPorts p = (if p \<in> set usedPorts then port_loop usedPorts (p + 1) else p)"
  by pat_completeness auto
termination
proof (relation "measure (\<lambda>(usedPorts, p). nat (Max (set usedPorts) + 1 - p))")
  show "wf (measure (\<lambda>(usedPorts, p). nat (Max (set usedPorts) + 1 - p)))"
    by simp
next
  fix usedPorts :: "int list" and p :: int
  assume "p \<in> set usedPorts"
  then have "p \<le> Max (set usedPorts)"
    by simp
  then show "((usedPorts, p + 1), (usedPorts, p))
             \<in> measure (\<lambda>(usedPorts, p). nat (Max (set usedPorts) + 1 - p))"
    by simp
qed

declare port_loop.simps [simp del]

definition usedPorts_of :: "manager \<Rightarrow> int list" where
  "usedPorts_of m = List.map_filter port (getAllSites m)"

definition findAvailablePort :: "manager \<Rightarrow> int" where
  "findAvailablePort m = port_loop (usedPorts_of m) 4000"

subsection \<open>createSite, buildSite, serveSite, stopSite, deleteSite\<close>

text \<open>JavaScript's \<open>a || b\<close> on optional strings: \<open>undefined\<close> and \<open>''\<close> are falsy.\<close>

definition str_or :: "string option \<Rightarrow> string option \<Rightarrow> string option" where
  "str_or a b = (case a of Some (c # cs) \<Rightarrow> a | _ \<Rightarrow> b)"

text \<open>
  \<open>createSite(siteData, structure)\<close>. \<open>uuid\<close> is what \<open>uuidv4()\<close> returned, \<open>now\<close> the
  clock, \<open>materialized\<close> whether \<open>ensureDir\<close>/\<open>createJekyllStructure\<close> ran without
  throwing (\<open>initGitRepo\<close> catches its own errors). \<open>path.join\<close> is written as plain
  concatenation under the projects directory.
\<close>

definition createSite ::
  "manager \<Rightarrow> string \<Rightarrow> int \<Rightarrow> string option \<Rightarrow> string option \<Rightarrow> bool
   \<Rightarrow> (fault + JekyllSite) \<times> manager" where
  "createSite m uuid now siteData_name structure_name materialized =
     (let siteName = (case str_or structure_name (str_or siteData_name None) of
                        Some n \<Rightarrow> n | None \<Rightarrow> ''site-'' @ uuid);
          site = \<lparr>siteId = uuid, name = siteName, path = ''projects/'' @ siteName,
                  status = Creating, port = None, createdAt = now, lastBuilt = None\<rparr>;
          m1 = emit (SiteStatusChanged site) (sites_set uuid site m)
      in if materialized
         then (let site' = site\<lparr>status := Ready\<rparr>
               in (Inr site',
                   emit (SiteCreated site')
                     (emit (SiteStatusChanged site') (sites_set uuid site' m1))))
         else (let site' = site\<lparr>status := Error\<rparr>
               in (Inl FsFailed, emit (SiteStatusChanged site') (sites_set uuid site' m1))))"

text \<open>
  \<open>buildSite(siteId)\<close>. \<open>started\<close> and \<open>finished\<close> are the clock before and after the
  command; \<open>error.stdout || ''\<close> and \<open>error.stderr || error.message\<close> pick the first
  non-empty string.
\<close>

definition buildSite ::
  "manager \<Rightarrow> string \<Rightarrow> int \<Rightarrow> int \<Rightarrow> exec_outcome \<Rightarrow> (fault + BuildResult) \<times> manager" where
  "buildSite m i started finished outcome =
     (case getSite m i of
        None \<Rightarrow> (Inl SiteNotFound, m)
      | Some site0 \<Rightarrow>
          (let site1 = site0\<lparr>status := Building\<rparr>;
               m1 = emit (SiteStatusChanged site1) (sites_set i site1 m);
               m2 = m1\<lparr>commands := commands m1 @ [DockerBuild (name site1)]\<rparr>
           in case outcome of
                Resolved out err \<Rightarrow>
                  (let site2 = site1\<lparr>status := Ready, lastBuilt := Some finished\<rparr>
                   in (Inr \<lparr>success = True, output' = out, error = None,
                            buildTime = finished - started\<rparr>,
                       emit (SiteBuilt site2)
                         (emit (SiteStatusChanged site2) (sites_set i site2 m2))))
              | Rejected e \<Rightarrow>
                  (let site2 = site1\<lparr>status := Error\<rparr>
                   in (Inr \<lparr>success = False,
                            output' = (case str_or (err_stdout e) None of
                                        Some s \<Rightarrow> s | None \<Rightarrow> []),
                            error = Some (case str_or (err_stderr e) None of
                                            Some s \<Rightarrow> s | None \<Rightarrow> err_message e),
                            buildTime = finished - started\<rparr>,
                       emit (SiteStatusChanged site2) (sites_set i site2 m2)))))"

text \<open>
  \<open>serveSite(siteId, port?)\<close>. \<open>port || await this.findAvailablePort()\<close>: an absent port
  and the number 0 are falsy.
\<close>

definition serveSite ::
  "manager \<Rightarrow> string \<Rightarrow> int option \<Rightarrow> exec_outcome \<Rightarrow> (fault + int) \<times> manager" where
  "serveSite m i requested outcome =
     (case getSite m i of
        None \<Rightarrow> (Inl SiteNotFound, m)
      | Some site0 \<Rightarrow>
          (let servePort = (case requested of
                              Some p \<Rightarrow> if p \<noteq> 0 then p else findAvailablePort m
                            | None \<Rightarrow> findAvailablePort m);
               m1 = m\<lparr>commands := commands m @ [DockerServe (name site0) servePort]\<rparr>
           in case outcome of
                Resolved out err \<Rightarrow>
                  (let site1 = site0\<lparr>status := Serving, port := Some servePort\<rparr>
                   in (Inr servePort,
                       setupFileWatcher site1
                         (emit (SiteServing site1)
                            (emit (SiteStatusChanged site1) (sites_set i site1 m1)))))
              | Rejected e \<Rightarrow>
                  (let site1 = site0\<lparr>status := Error\<rparr>
                   in (Inl (CommandFailed e),
                       emit (SiteStatusChanged site1) (sites_set i site1 m1)))))"

text \<open>\<open>stopSite(siteId)\<close>: the \<open>catch\<close> only logs, so a failed command returns normally.\<close>

definition stopSite :: "manager \<Rightarrow> string \<Rightarrow> exec_outcome \<Rightarrow> (fault + unit) \<times> manager" where
  "stopSite m i outcome =
     (case getSite m i of
        None \<Rightarrow> (Inl SiteNotFound, m)
      | Some site0 \<Rightarrow>
          (let m1 = m\<lparr>commands := commands m @ [DockerDown]\<rparr>
           in case outcome of
                Resolved out err \<Rightarrow>
                  (let site1 = site0\<lparr>status := Ready, port := None\<rparr>
                   in (Inr (),
                       emit (SiteStopped site1)
                         (emit (SiteStatusChanged site1) (sites_set i site1 m1))))
              | Rejected e \<Rightarrow> (Inr (), m1)))"

text \<open>
  \<open>deleteSite(siteId)\<close>. \<open>stop_outcome\<close> is used only when the site is serving;
  \<open>removed\<close> says whether \<open>fs.remove\<close> returned. \<open>site\<close> is the same object that
  \<open>stopSite\<close> updates, so the payload of \<open>siteDeleted\<close> is the record after the stop.
\<close>

definition deleteSite ::
  "manager \<Rightarrow> string \<Rightarrow> exec_outcome \<Rightarrow> bool \<Rightarrow> (fault + unit) \<times> manager" where
  "deleteSite m i stop_outcome removed =
     (case getSite m i of
        None \<Rightarrow> (Inl SiteNotFound, m)
      | Some site0 \<Rightarrow>
          (let m1 = (if status site0 = Serving then snd (stopSite m i stop_outcome) else m)
           in if removed
              then (case getSite m1 i of
                      Some site1 \<Rightarrow> (Inr (), emit (SiteDeleted site1) (sites_delete i m1))
                    | None \<Rightarrow> (Inr (), emit (SiteDeleted site0) (sites_delete i m1)))
              else (Inl FsFailed, m1)))"

section \<open>The routes that call the manager\<close>

text \<open>
  Each handler is modelled from the lookup of the site on: the security middleware, the
  method dispatch and the check that the id is a string come before and do not touch
  the manager.
\<close>

subsection \<open>pages/api/sites/[id]/serve.ts\<close>

text \<open>
  The \<open>port\<close> member of the request body: absent (or any falsy value that is not a
  number: \<open>null\<close>, \<open>false\<close>, \<open>''\<close>), a number (taken to be integral), or a truthy value
  that is not a number.
\<close>

datatype body_port = NoPort | NumPort int | NonNumPort

text \<open>\<open>port && (typeof port !== 'number' || port < 3000 || port > 9999)\<close>\<close>

fun port_rejected :: "body_port \<Rightarrow> bool" where
  "port_rejected NoPort = False"
| "port_rejected (NumPort n) = (n \<noteq> 0 \<and> (n < 3000 \<or> n > 9999))"
| "port_rejected NonNumPort = True"

fun port_argument :: "body_port \<Rightarrow> int option" where
  "port_argument (NumPort n) = Some n"
| "port_argument _ = None"

datatype serve_response =
    SiteNotFound404
  | PortOutOfRange400
  | AlreadyServing409 "int option"
  | ServingStarted200 int
  | NotServing400
  | ServerStopped200
  | ServerError500 fault

text \<open>The \<open>POST\<close> branch: the port check comes first, then the status check, then
  \<open>serveSite\<close>.\<close>

definition serve_POST ::
  "manager \<Rightarrow> string \<Rightarrow> body_port \<Rightarrow> exec_outcome \<Rightarrow> serve_response \<times> manager" where
  "serve_POST m i body outcome =
     (case getSite m i of
        None \<Rightarrow> (SiteNotFound404, m)
      | Some site \<Rightarrow>
          if port_rejected body then (PortOutOfRange400, m)
          else if status site = Serving then (AlreadyServing409 (port site), m)
          else (case serveSite m i (port_argument body) outcome of
                  (Inr servePort, m') \<Rightarrow> (ServingStarted200 servePort, m')
                | (Inl e, m') \<Rightarrow> (ServerError500 e, m')))"

text \<open>The \<open>DELETE\<close> branch.\<close>

definition serve_DELETE ::
  "manager \<Rightarrow> string \<Rightarrow> exec_outcome \<Rightarrow> serve_response \<times> manager" where
  "serve_DELETE m i outcome =
     (case getSite m i of
        None \<Rightarrow> (SiteNotFound404, m)
      | Some site \<Rightarrow>
          if status site \<noteq> Serving then (NotServing400, m)
          else (case stopSite m i outcome of
                  (Inr u, m') \<Rightarrow> (ServerStopped200, m')
                | (Inl e, m') \<Rightarrow> (ServerError500 e, m')))"

subsection \<open>pages/api/sites/[id]/index.ts, method DELETE\<close>

text \<open>The route stops a serving site itself and then calls \<open>deleteSite\<close>, which tries
  the stop again when the status is still \<open>serving\<close>.\<close>

datatype delete_response = DeleteNotFound404 | Deleted200 | DeleteError500 fault

definition site_DELETE ::
  "manager \<Rightarrow> string \<Rightarrow> exec_outcome \<Rightarrow> exec_outcome \<Rightarrow> bool \<Rightarrow> delete_response \<times> manager" where
  "site_DELETE m i stop_outcome stop_outcome2 removed =
     (case getSite m i of
        None \<Rightarrow> (DeleteNotFound404, m)
      | Some site \<Rightarrow>
          (let m1 = (if status site = Serving then snd (stopSite m i stop_outcome) else m)
           in case deleteSite m1 i stop_outcome2 removed of
                (Inr u, m') \<Rightarrow> (Deleted200, m')
              | (Inl e, m') \<Rightarrow> (DeleteError500 e, m')))"

subsection \<open>pages/api/sites/create.ts and validateSiteName\<close>

definition name_char :: "char \<Rightarrow> bool" where
  "name_char c =
     (let n = (of_char c :: nat)
      in (48 \<le> n \<and> n \<le> 57) \<or> (65 \<le> n \<and> n \<le> 90) \<or> (97 \<le> n \<and> n \<le> 122)
         \<or> c = CHR ''_'' \<or> c = CHR ''-'')"

definition toLowerCase :: "string \<Rightarrow> string" where
  "toLowerCase = map (\<lambda>c. let n = (of_char c :: nat)
                         in if 65 \<le> n \<and> n \<le> 90 then char_of (n + 32) else c)"

definition reservedNames :: "string list" where
  "reservedNames = [''api'', ''admin'', ''www'', ''mail'', ''ftp'', ''localhost'', ''example'']"

text \<open>\<open>validateSiteName(name).isValid\<close>\<close>

definition validateSiteName :: "string \<Rightarrow> bool" where
  "validateSiteName nm =
     (if nm = [] then False
      else if length nm < 3 \<or> length nm > 50 then False
      else if \<not> list_all name_char nm then False
      else if toLowerCase nm \<in> set reservedNames then False
      else True)"

text \<open>What \<open>gemini.generateSiteStructure\<close> gave: it threw, or it returned a structure
  document, of which the registry reads only \<open>name\<close>.\<close>

datatype generation = GenerationFailed | Generated "string option"

datatype create_response =
    PromptRequired400
  | InvalidName400
  | NameExists409
  | Created201 "JekyllSite option" BuildResult
  | CreateError500

text \<open>
  The handler, from the point where \<open>sanitizedName\<close> has been computed
  (\<open>name ? sanitizeInput(name) : null\<close>). The name check runs only for a truthy
  \<open>sanitizedName\<close>, and on that name. \<open>create_generated\<close> is the rest of the handler,
  from the call of the generator on; the site in the answer is read after the build.
\<close>

definition create_generated ::
  "manager \<Rightarrow> string option \<Rightarrow> generation \<Rightarrow> string \<Rightarrow> int \<Rightarrow> bool
   \<Rightarrow> int \<Rightarrow> int \<Rightarrow> exec_outcome \<Rightarrow> create_response \<times> manager" where
  "create_generated m sanitizedName generated uuid now materialized started finished outcome =
     (case generated of
        GenerationFailed \<Rightarrow> (CreateError500, m)
      | Generated structure_name \<Rightarrow>
          (let finalName = str_or sanitizedName structure_name
           in case createSite m uuid now finalName structure_name materialized of
                (Inl e, m1) \<Rightarrow> (CreateError500, m1)
              | (Inr site, m1) \<Rightarrow>
                  (case buildSite m1 (siteId site) started finished outcome of
                     (Inl e, m2) \<Rightarrow> (CreateError500, m2)
                   | (Inr buildResult, m2) \<Rightarrow>
                       (Created201 (getSite m2 (siteId site)) buildResult, m2))))"

definition create_POST ::
  "manager \<Rightarrow> string \<Rightarrow> string option \<Rightarrow> generation \<Rightarrow> string \<Rightarrow> int \<Rightarrow> bool
   \<Rightarrow> int \<Rightarrow> int \<Rightarrow> exec_outcome \<Rightarrow> create_response \<times> manager" where
  "create_POST m prompt sanitizedName generated uuid now materialized started finished outcome =
     (if prompt = [] then (PromptRequired400, m)
      else case str_or sanitizedName None of
             Some nm \<Rightarrow>
               if \<not> validateSiteName nm then (InvalidName400, m)
               else if list_ex (\<lambda>site. name site = nm) (getAllSites m)
               then (NameExists409, m)
               else create_generated m sanitizedName generated uuid now materialized
                      started finished outcome
           | None \<Rightarrow>
               create_generated m sanitizedName generated uuid now materialized
                 started finished outcome)"

section \<open>The broadcast layer (src/pages/api/websocket.ts)\<close>

datatype ready_state = CONNECTING | OPEN | CLOSING | CLOSED

datatype payload =
    NoData
  | SiteData JekyllSite
  | FileData string string
  | SitesData "JekyllSite list"
  | ConnectedData string int
  | SiteIdData string
  | ErrorData string

text \<open>\<open>WebSocketMessage\<close>, with the fields prefixed.\<close>

record WebSocketMessage =
  msg_type :: string
  msg_data :: payload
  msg_siteId :: "string option"
  msg_timestamp :: "int option"

text \<open>
  \<open>ExtendedWebSocket\<close>: the three added fields, the socket's \<open>readyState\<close>, and what the
  socket has been given to transmit: the messages passed to \<open>send\<close>, in order, and the
  number of ping frames.
\<close>

record ExtendedWebSocket =
  clientId :: string
  isAlive :: bool
  subscribedSites :: "string set"
  readyState :: ready_state
  received :: "WebSocketMessage list"
  pings :: nat

text \<open>
  \<open>WebSocketManager\<close>. Socket objects are shared between the \<open>clients\<close> set and the
  callbacks registered on them, so they live in a store indexed by reference;
  \<open>clients\<close> lists the references in the set, in insertion order, and \<open>next_ref\<close> is the
  reference the next new socket gets.
\<close>

record ws_manager =
  clients :: "nat list"
  sockets :: "nat \<Rightarrow> ExtendedWebSocket"
  next_ref :: nat

definition new_socket :: "string \<Rightarrow> ExtendedWebSocket" where
  "new_socket cid = \<lparr>clientId = cid, isAlive = True, subscribedSites = {},
                      readyState = OPEN, received = [], pings = 0\<rparr>"

definition new_ws_manager :: ws_manager where
  "new_ws_manager = \<lparr>clients = [], sockets = (\<lambda>r. new_socket []), next_ref = 0\<rparr>"

definition message :: "string \<Rightarrow> payload \<Rightarrow> string option \<Rightarrow> WebSocketMessage" where
  "message t d i = \<lparr>msg_type = t, msg_data = d, msg_siteId = i, msg_timestamp = None\<rparr>"

text \<open>\<open>sendToClient\<close>: nothing is sent unless the socket is open; \<open>now\<close> is the clock.
  On an open socket \<open>send\<close> is taken to succeed (a throw would be caught and logged).\<close>

definition sendToClient :: "int \<Rightarrow> nat \<Rightarrow> WebSocketMessage \<Rightarrow> ws_manager \<Rightarrow> ws_manager" where
  "sendToClient now r msg st =
     (if readyState (sockets st r) = OPEN
      then st\<lparr>sockets := (sockets st)
                 (r := (sockets st r)\<lparr>received := received (sockets st r)
                                          @ [msg\<lparr>msg_timestamp := Some now\<rparr>]\<rparr>)\<rparr>
      else st)"

text \<open>\<open>broadcast(message, filterFn?)\<close>: the callback of \<open>this.clients.forEach\<close>, then the
  loop.\<close>

definition broadcast_visit ::
  "int \<Rightarrow> WebSocketMessage \<Rightarrow> (ExtendedWebSocket \<Rightarrow> bool) option
   \<Rightarrow> nat \<Rightarrow> ws_manager \<Rightarrow> ws_manager" where
  "broadcast_visit now msg filterFn r st =
     (if (case filterFn of None \<Rightarrow> True | Some f \<Rightarrow> f (sockets st r))
      then sendToClient now r msg st else st)"

definition broadcast ::
  "int \<Rightarrow> WebSocketMessage \<Rightarrow> (ExtendedWebSocket \<Rightarrow> bool) option \<Rightarrow> ws_manager \<Rightarrow> ws_manager" where
  "broadcast now msg filterFn st = fold (broadcast_visit now msg filterFn) (clients st) st"

definition broadcastToSiteSubscribers ::
  "int \<Rightarrow> string \<Rightarrow> WebSocketMessage \<Rightarrow> ws_manager \<Rightarrow> ws_manager" where
  "broadcastToSiteSubscribers now i msg st =
     broadcast now msg (Some (\<lambda>ws. i \<in> subscribedSites ws)) st"

text \<open>\<open>setupJekyllManagerListeners\<close>: what the listeners do with one emitted event.
  Nothing listens to \<open>fileUpdated\<close>.\<close>

fun jekyll_listener :: "int \<Rightarrow> event \<Rightarrow> ws_manager \<Rightarrow> ws_manager" where
  "jekyll_listener now (SiteStatusChanged s) st =
     broadcast now (message ''siteStatusChanged'' (SiteData s) (Some (siteId s))) None st"
| "jekyll_listener now (FileChanged i fp) st =
     broadcastToSiteSubscribers now i (message ''fileChanged'' (FileData i fp) (Some i)) st"
| "jekyll_listener now (SiteBuilt s) st =
     broadcast now (message ''siteBuilt'' (SiteData s) (Some (siteId s))) None st"
| "jekyll_listener now (SiteCreated s) st =
     broadcast now (message ''siteCreated'' (SiteData s) (Some (siteId s))) None st"
| "jekyll_listener now (SiteDeleted s) st =
     broadcast now (message ''siteDeleted'' (SiteData s) (Some (siteId s))) None st"
| "jekyll_listener now (SiteServing s) st =
     broadcast now (message ''siteServing'' (SiteData s) (Some (siteId s))) None st"
| "jekyll_listener now (SiteStopped s) st =
     broadcast now (message ''siteStopped'' (SiteData s) (Some (siteId s))) None st"
| "jekyll_listener now (FileUpdated i fp c) st = st"

text \<open>\<open>handleConnection\<close>; \<open>all_sites\<close> is \<open>jekyllManager.getAllSites()\<close>.\<close>

definition handleConnection ::
  "int \<Rightarrow> string \<Rightarrow> JekyllSite list \<Rightarrow> ws_manager \<Rightarrow> ws_manager" where
  "handleConnection now cid all_sites st =
     (let r = next_ref st;
          st1 = st\<lparr>clients := clients st @ [r], sockets := (sockets st)(r := new_socket cid),
                   next_ref := Suc r\<rparr>;
          st2 = sendToClient now r (message ''connected'' (ConnectedData cid now) None) st1
      in sendToClient now r (message ''sites'' (SitesData all_sites) None) st2)"

text \<open>A client message after \<open>JSON.parse\<close>: \<open>Malformed\<close> is a parse that throws.\<close>

datatype client_message =
    Ping
  | Subscribe "string option"
  | Unsubscribe "string option"
  | GetSites
  | UnknownType
  | Malformed

fun handleMessage ::
  "int \<Rightarrow> nat \<Rightarrow> client_message \<Rightarrow> JekyllSite list \<Rightarrow> ws_manager \<Rightarrow> ws_manager" where
  "handleMessage now r Ping all_sites st = sendToClient now r (message ''pong'' NoData None) st"
| "handleMessage now r (Subscribe (Some (c # cs))) all_sites st =
     sendToClient now r (message ''subscribed'' (SiteIdData (c # cs)) None)
       (st\<lparr>sockets := (sockets st)
              (r := (sockets st r)\<lparr>subscribedSites :=
                                     insert (c # cs) (subscribedSites (sockets st r))\<rparr>)\<rparr>)"
| "handleMessage now r (Subscribe _) all_sites st = st"
| "handleMessage now r (Unsubscribe (Some (c # cs))) all_sites st =
     sendToClient now r (message ''unsubscribed'' (SiteIdData (c # cs)) None)
       (st\<lparr>sockets := (sockets st)
              (r := (sockets st r)\<lparr>subscribedSites :=
                                     subscribedSites (sockets st r) - {c # cs}\<rparr>)\<rparr>)"
| "handleMessage now r (Unsubscribe _) all_sites st = st"
| "handleMessage now r GetSites all_sites st =
     sendToClient now r (message ''sites'' (SitesData all_sites) None) st"
| "handleMessage now r UnknownType all_sites st =
     sendToClient now r (message ''error'' (ErrorData ''Unknown message type'') None) st"
| "handleMessage now r Malformed all_sites st =
     sendToClient now r (message ''error'' (ErrorData ''Invalid message format'') None) st"

text \<open>The \<open>pong\<close> and \<open>close\<close> callbacks of a socket (a closed socket has \<open>readyState\<close>
  \<open>CLOSED\<close>).\<close>

definition on_pong :: "nat \<Rightarrow> ws_manager \<Rightarrow> ws_manager" where
  "on_pong r st = st\<lparr>sockets := (sockets st)(r := (sockets st r)\<lparr>isAlive := True\<rparr>)\<rparr>"

definition on_close :: "nat \<Rightarrow> ws_manager \<Rightarrow> ws_manager" where
  "on_close r st =
     st\<lparr>clients := removeAll r (clients st),
        sockets := (sockets st)(r := (sockets st r)\<lparr>readyState := CLOSED\<rparr>)\<rparr>"

text \<open>One tick of \<open>startHeartbeat\<close>: the body of the \<open>forEach\<close>, then the loop over the
  set as it was when the tick began (a deletion removes only the element being visited).\<close>

definition heartbeat_visit :: "nat \<Rightarrow> ws_manager \<Rightarrow> ws_manager" where
  "heartbeat_visit r st =
     (if \<not> isAlive (sockets st r)
      then st\<lparr>clients := removeAll r (clients st),
              sockets := (sockets st)(r := (sockets st r)\<lparr>readyState := CLOSED\<rparr>)\<rparr>
      else st\<lparr>sockets := (sockets st)
                 (r := (sockets st r)\<lparr>isAlive := False, pings := Suc (pings (sockets st r))\<rparr>)\<rparr>)"

definition heartbeat :: "ws_manager \<Rightarrow> ws_manager" where
  "heartbeat st = fold heartbeat_visit (clients st) st"

text \<open>Everything that can happen to the broadcast layer, and a run of such steps.\<close>

datatype ws_action =
    Connect int string "JekyllSite list"
  | Message int nat client_message "JekyllSite list"
  | Pong nat
  | SocketClosed nat
  | Publish int event
  | Tick

fun ws_step :: "ws_action \<Rightarrow> ws_manager \<Rightarrow> ws_manager" where
  "ws_step (Connect now cid all_sites) st = handleConnection now cid all_sites st"
| "ws_step (Message now r msg all_sites) st = handleMessage now r msg all_sites st"
| "ws_step (Pong r) st = on_pong r st"
| "ws_step (SocketClosed r) st = on_close r st"
| "ws_step (Publish now ev) st = jekyll_listener now ev st"
| "ws_step Tick st = heartbeat st"

definition run :: "ws_action list \<Rightarrow> ws_manager \<Rightarrow> ws_manager" where
  "run acts st = fold ws_step acts st"

text \<open>Heartbeat intervals: the steps of each interval, then the tick that ends it.\<close>

definition run_intervals :: "ws_action list list \<Rightarrow> ws_manager \<Rightarrow> ws_manager" where
  "run_intervals intervals st = fold (\<lambda>acts st'. heartbeat (run acts st')) intervals st"

text \<open>The \<open>clients\<close> set has no duplicates, and every reference in it has been handed
  out.\<close>

definition ws_inv :: "ws_manager \<Rightarrow> bool" where
  "ws_inv st = (distinct (clients st) \<and> list_all (\<lambda>r. r < next_ref st) (clients st))"

section \<open>Concrete registries\<close>

text \<open>Two sites \<open>alpha\<close> and \<open>beta\<close>, created and materialized, both \<open>ready\<close>.\<close>

definition two_sites :: manager where
  "two_sites =
     snd (createSite (snd (createSite new_manager ''a1'' 1 None (Some ''alpha'') True))
            ''b2'' 2 None (Some ''beta'') True)"

text \<open>Both sites served through the route on the requested port 5000, both commands
  succeeding.\<close>

definition both_on_5000 :: manager where
  "both_on_5000 =
     snd (serve_POST (snd (serve_POST two_sites ''a1'' (NumPort 5000) (Resolved [] [])))
            ''b2'' (NumPort 5000) (Resolved [] []))"

text \<open>\<open>alpha\<close> served without a requested port.\<close>

definition alpha_serving :: manager where
  "alpha_serving = snd (serve_POST two_sites ''a1'' NoPort (Resolved [] []))"

text \<open>\<dots> and then built again while it is served (the build route refuses only a
  site that is \<open>building\<close>).\<close>

definition alpha_rebuilt :: manager where
  "alpha_rebuilt = snd (buildSite alpha_serving ''a1'' 10 20 (Resolved [] []))"

text \<open>Both sites served, then \<open>beta\<close> stopped, then \<open>alpha\<close> stopped, through the route.\<close>

definition both_stopped :: manager where
  "both_stopped =
     snd (serve_DELETE
            (snd (serve_DELETE
                    (snd (serve_POST alpha_serving ''b2'' NoPort (Resolved [] [])))
                    ''b2'' (Resolved [] [])))
            ''a1'' (Resolved [] []))"

text \<open>A registry holding one site named \<open>blog\<close>, made by the create route.\<close>

definition blog_registry :: manager where
  "blog_registry =
     snd (create_POST new_manager ''a blog'' (Some ''blog'') (Generated (Some ''blog''))
            ''a1'' 1 True 2 3 (Resolved [] []))"

section \<open>A concrete set of connections\<close>

text \<open>Two clients connect (references 0 and 1) and the first subscribes to site
  \<open>a1\<close>.\<close>

definition two_clients :: ws_manager where
  "two_clients =
     run [Connect 1 ''c1'' [], Connect 2 ''c2'' [], Message 3 0 (Subscribe (Some ''a1'')) []]
       new_ws_manager"

section \<open>Properties of the manager\<close>

lemmas scenario_defs =
  two_sites_def both_on_5000_def alpha_serving_def alpha_rebuilt_def both_stopped_def
  blog_registry_def new_manager_def createSite_def buildSite_def serveSite_def stopSite_def
  deleteSite_def serve_POST_def serve_DELETE_def create_POST_def create_generated_def
  getSite_def getAllSites_def sites_set_def sites_delete_def emit_def on_siteStopped_def
  setupFileWatcher_def watcher_change_def findAvailablePort_def usedPorts_of_def
  port_loop.simps List.map_filter_def str_or_def validateSiteName_def name_char_def
  toLowerCase_def reservedNames_def Let_def

lemma getSite_sites_set [simp]: "getSite (sites_set i s m) j = (if j = i then Some s else getSite m j)"
  by (simp add: getSite_def sites_set_def update_conv')

lemma getSite_emit [simp]: "getSite (emit ev m) j = getSite m j"
  by (cases ev) (simp_all add: getSite_def emit_def)

lemma getSite_commands_update [simp]: "getSite (m\<lparr>commands := c\<rparr>) j = getSite m j"
  by (simp add: getSite_def)

lemma getSite_setupFileWatcher [simp]: "getSite (setupFileWatcher s m) j = getSite m j"
  by (simp add: getSite_def setupFileWatcher_def)

text \<open>
  C6. When the build command is rejected (non-zero exit, a thrown error, the 120 s
  deadline), \<open>buildSite\<close> on a registered site returns a \<open>BuildResult\<close> as a value, with
  \<open>success = false\<close>, the captured output and the error text, and the site's status is
  \<open>error\<close>, not \<open>building\<close>.
\<close>

theorem buildSite_failure_is_data:
  assumes "getSite m i = Some s"
      and "buildSite m i started finished (Rejected e) = (r, m')"
  shows "\<exists>res. r = Inr res \<and> \<not> success res
           \<and> output' res = (case err_stdout e of None \<Rightarrow> [] | Some out \<Rightarrow> out)
           \<and> error res = Some (case err_stderr e of
                                  Some (c # cs) \<Rightarrow> c # cs | _ \<Rightarrow> err_message e)
           \<and> getSite m' i = Some (s\<lparr>status := Error\<rparr>)"
  using assms
  by (auto simp: buildSite_def Let_def str_or_def split: option.splits list.splits)

theorem buildSite_failure_is_data_witness:
  "map_option status (getSite two_sites ''a1'') = Some Ready
   \<and> fst (buildSite two_sites ''a1'' 10 20
            (Rejected \<lparr>err_stdout = Some ''partial'', err_stderr = Some ''boom'',
                       err_message = ''Command failed''\<rparr>))
       = Inr \<lparr>success = False, output' = ''partial'', error = Some ''boom'', buildTime = 10\<rparr>
   \<and> map_option status
         (getSite (snd (buildSite two_sites ''a1'' 10 20
            (Rejected \<lparr>err_stdout = Some ''partial'', err_stderr = Some ''boom'',
                       err_message = ''Command failed''\<rparr>))) ''a1'') = Some Error"
proof -
  let ?e = "\<lparr>err_stdout = Some ''partial'', err_stderr = Some ''boom'',
              err_message = ''Command failed''\<rparr>"
  obtain s where h: "getSite two_sites ''a1'' = Some s" and st: "status s = Ready"
    by (simp add: scenario_defs)
  obtain r m' where b: "buildSite two_sites ''a1'' 10 20 (Rejected ?e) = (r, m')"
    by (cases "buildSite two_sites ''a1'' 10 20 (Rejected ?e)")
  from buildSite_failure_is_data [OF h b]
  obtain res where "r = Inr res" and "getSite m' ''a1'' = Some (s\<lparr>status := Error\<rparr>)"
    by blast
  moreover have "fst (buildSite two_sites ''a1'' 10 20 (Rejected ?e))
                 = Inr \<lparr>success = False, output' = ''partial'', error = Some ''boom'',
                        buildTime = 10\<rparr>"
    by (simp add: scenario_defs)
  ultimately show ?thesis using h st b by simp
qed

text \<open>
  C2. The \<open>DELETE\<close> branch of the serve route (the Stop operation) on a registered site
  whose status is not \<open>serving\<close> answers 400 "Site is not currently being served" and
  leaves the whole manager, and so the site's record, as it was.
\<close>

theorem stop_not_serving_rejected:
  "getSite m i = Some s \<Longrightarrow> status s \<noteq> Serving
   \<Longrightarrow> serve_DELETE m i outcome = (NotServing400, m)"
  by (simp add: serve_DELETE_def)

theorem stop_not_serving_rejected_witness:
  "map_option status (getSite two_sites ''a1'') = Some Ready
   \<and> serve_DELETE two_sites ''a1'' (Resolved [] []) = (NotServing400, two_sites)"
proof -
  obtain s where h: "getSite two_sites ''a1'' = Some s" and st: "status s = Ready"
    by (simp add: scenario_defs)
  from st have "status s \<noteq> Serving" by simp
  from stop_not_serving_rejected [OF h this] h st show ?thesis by simp
qed

text \<open>
  C3, as stated, fails: the route checks the requested port before the status, so a
  second Serve on a serving site with the port 80 is answered "Port must be a number
  between 3000 and 9999", not "already being served".
\<close>

theorem serve_again_bad_port_counterexample:
  "map_option status (getSite alpha_serving ''a1'') = Some Serving
   \<and> map_option port (getSite alpha_serving ''a1'') = Some (Some 4000)
   \<and> fst (serve_POST alpha_serving ''a1'' (NumPort 80) (Resolved [] [])) = PortOutOfRange400"
  by (simp add: scenario_defs)

text \<open>
  C3, amended. For a site serving on port \<open>p\<close>, a second Serve through the route starts
  no command and leaves the manager unchanged; it is answered "already being served"
  with the port \<open>p\<close> when the request carries no port, the port 0 or a number from 3000
  to 9999, and "port out of range" otherwise.
\<close>

theorem serve_again_rejected:
  "getSite m i = Some s \<Longrightarrow> status s = Serving \<Longrightarrow> port s = Some p \<Longrightarrow>
   serve_POST m i body outcome
     = (if port_rejected body then PortOutOfRange400 else AlreadyServing409 (Some p), m)"
  by (simp add: serve_POST_def)

theorem serve_again_rejected_witness:
  "map_option status (getSite alpha_serving ''a1'') = Some Serving
   \<and> serve_POST alpha_serving ''a1'' NoPort (Resolved [] [])
       = (AlreadyServing409 (Some 4000), alpha_serving)"
proof -
  obtain s where h: "getSite alpha_serving ''a1'' = Some s"
    and st: "status s = Serving" and p: "port s = Some 4000"
    by (simp add: scenario_defs)
  from serve_again_rejected [OF h st p, of NoPort "Resolved [] []"] h st
  show ?thesis by simp
qed

lemma getSite_sites_delete [simp]:
  "getSite (sites_delete i m) j = (if j = i then None else getSite m j)"
  by (simp add: getSite_def sites_delete_def delete_conv')

text \<open>
  C10. When the stop command fails, \<open>stopSite\<close> returns normally and changes nothing but
  the log of commands started: the record stays \<open>serving\<close> with its port and no event is
  emitted. \<open>deleteSite\<close> on a serving site whose stop fails then removes the record and
  emits \<open>siteDeleted\<close> (when \<open>fs.remove\<close> returns); whether the stop failed never changes
  the result of the deletion, and the delete route answers 200.
\<close>

theorem stop_failure_swallowed_delete_proceeds:
  assumes "getSite m i = Some s" and "status s = Serving"
  shows "stopSite m i (Rejected e) = (Inr (), m\<lparr>commands := commands m @ [DockerDown]\<rparr>)
       \<and> fst (deleteSite m i (Rejected e) True) = Inr ()
       \<and> getSite (snd (deleteSite m i (Rejected e) True)) i = None
       \<and> emitted (snd (deleteSite m i (Rejected e) True)) = emitted m @ [SiteDeleted s]
       \<and> fst (deleteSite m i (Rejected e) removed)
           = fst (deleteSite m i (Resolved out err) removed)
       \<and> fst (site_DELETE m i (Rejected e) (Rejected e') True) = Deleted200"
  using assms
  by (simp add: stopSite_def deleteSite_def site_DELETE_def Let_def emit_def
        sites_delete_def getSite_def delete_conv' sites_set_def update_conv')

theorem stop_failure_swallowed_delete_proceeds_witness:
  "map_option status (getSite alpha_serving ''a1'') = Some Serving
   \<and> map_option status
         (getSite (snd (stopSite alpha_serving ''a1''
            (Rejected \<lparr>err_stdout = None, err_stderr = None, err_message = ''down failed''\<rparr>)))
            ''a1'') = Some Serving
   \<and> fst (deleteSite alpha_serving ''a1''
            (Rejected \<lparr>err_stdout = None, err_stderr = None, err_message = ''down failed''\<rparr>)
            True) = Inr ()
   \<and> getSite (snd (deleteSite alpha_serving ''a1''
            (Rejected \<lparr>err_stdout = None, err_stderr = None, err_message = ''down failed''\<rparr>)
            True)) ''a1'' = None"
proof -
  let ?e = "\<lparr>err_stdout = None, err_stderr = None, err_message = ''down failed''\<rparr>"
  obtain s where h: "getSite alpha_serving ''a1'' = Some s" and st: "status s = Serving"
    by (simp add: scenario_defs)
  from stop_failure_swallowed_delete_proceeds [OF h st, of ?e True "[]" "[]" ?e] h st
  show ?thesis by simp
qed

subsection \<open>Port allocation\<close>

lemma port_loop_spec:
  "p0 \<le> port_loop us p0 \<and> port_loop us p0 \<notin> set us
   \<and> (\<forall>q. p0 \<le> q \<and> q < port_loop us p0 \<longrightarrow> q \<in> set us)"
proof (induction us p0 rule: port_loop.induct)
  case (1 us p)
  show ?case
  proof (cases "p \<in> set us")
    case True
    then have eq: "port_loop us p = port_loop us (p + 1)"
      by (simp add: port_loop.simps [of us p])
    from 1 [OF True] have ih: "p + 1 \<le> port_loop us (p + 1)"
      "port_loop us (p + 1) \<notin> set us"
      "\<And>q. p + 1 \<le> q \<Longrightarrow> q < port_loop us (p + 1) \<Longrightarrow> q \<in> set us"
      by auto
    have "q \<in> set us" if "p \<le> q" "q < port_loop us (p + 1)" for q
    proof (cases "q = p")
      case True
      with \<open>p \<in> set us\<close> show ?thesis by simp
    next
      case False
      with that have "p + 1 \<le> q" by simp
      with that show ?thesis by (simp add: ih(3))
    qed
    with ih(1) ih(2) show ?thesis
      unfolding eq by auto
  next
    case False
    then show ?thesis
      by (auto simp: port_loop.simps [of us p])
  qed
qed

lemma usedPorts_of_iff:
  "q \<in> set (usedPorts_of m) \<longleftrightarrow> list_ex (\<lambda>t. port t = Some q) (getAllSites m)"
  by (force simp: usedPorts_of_def List.map_filter_def list_ex_iff image_iff)

text \<open>
  C7, as stated, fails: \<open>findAvailablePort\<close> skips every port recorded on any site,
  whatever its status. After \<open>alpha\<close> is served on 4000 and then rebuilt, no site is
  \<open>serving\<close>, \<open>alpha\<close> still records port 4000, and a Serve of \<open>beta\<close> with no requested
  port gets 4001.
\<close>

theorem stale_port_skipped_counterexample:
  "map status (getAllSites alpha_rebuilt) = [Ready, Ready]
   \<and> fst (serveSite alpha_rebuilt ''b2'' None (Resolved [] [])) = Inr 4001
   \<and> fst (serve_POST alpha_rebuilt ''b2'' NoPort (Resolved [] [])) = ServingStarted200 4001"
  by (simp add: scenario_defs)

text \<open>
  C7, amended. A Serve of a registered site with no requested port, when the command
  succeeds, allocates the smallest \<open>p \<ge> 4000\<close> that is not the recorded port of any site
  in the registry (serving or not, the site itself included) and stores it with the
  status \<open>serving\<close>; when no site records a port, that is 4000.
\<close>

theorem serveSite_allocates_least_unrecorded:
  assumes "getSite m i = Some s"
      and "serveSite m i None (Resolved out err) = (r, m')"
  shows "\<exists>p. r = Inr p \<and> 4000 \<le> p
           \<and> \<not> list_ex (\<lambda>t. port t = Some p) (getAllSites m)
           \<and> (\<forall>q. 4000 \<le> q \<and> q < p \<longrightarrow> list_ex (\<lambda>t. port t = Some q) (getAllSites m))
           \<and> (list_all (\<lambda>t. port t = None) (getAllSites m) \<longrightarrow> p = 4000)
           \<and> getSite m' i = Some (s\<lparr>status := Serving, port := Some p\<rparr>)"
proof -
  let ?p = "findAvailablePort m"
  have r: "r = Inr ?p" and g: "getSite m' i = Some (s\<lparr>status := Serving, port := Some ?p\<rparr>)"
    using assms by (auto simp: serveSite_def Let_def)
  have spec: "4000 \<le> ?p" "?p \<notin> set (usedPorts_of m)"
    "\<forall>q. 4000 \<le> q \<and> q < ?p \<longrightarrow> q \<in> set (usedPorts_of m)"
    using port_loop_spec [of 4000 "usedPorts_of m"] by (simp_all add: findAvailablePort_def)
  have least: "\<forall>q. 4000 \<le> q \<and> q < ?p \<longrightarrow> list_ex (\<lambda>t. port t = Some q) (getAllSites m)"
    using spec(3) by (simp add: usedPorts_of_iff)
  have none: "list_all (\<lambda>t. port t = None) (getAllSites m) \<longrightarrow> ?p = 4000"
  proof
    assume a: "list_all (\<lambda>t. port t = None) (getAllSites m)"
    have "\<not> list_ex (\<lambda>t. port t = Some 4000) (getAllSites m)"
      using a by (auto simp: list_all_iff list_ex_iff)
    with least have "\<not> (4000 < ?p)" by auto
    with spec(1) show "?p = 4000" by simp
  qed
  from r g spec(1) spec(2) least none show ?thesis
    by (simp add: usedPorts_of_iff)
qed

theorem serveSite_allocates_least_unrecorded_witness:
  "map_option status (getSite alpha_serving ''b2'') = Some Ready
   \<and> map port (getAllSites alpha_serving) = [Some 4000, None]
   \<and> fst (serveSite alpha_serving ''b2'' None (Resolved [] [])) = Inr 4001"
proof -
  obtain s where h: "getSite alpha_serving ''b2'' = Some s" and st: "status s = Ready"
    by (simp add: scenario_defs)
  obtain r m' where b: "serveSite alpha_serving ''b2'' None (Resolved [] []) = (r, m')"
    by (cases "serveSite alpha_serving ''b2'' None (Resolved [] [])")
  from serveSite_allocates_least_unrecorded [OF h b]
  obtain p where "r = Inr p" "4000 \<le> p" by blast
  moreover have "fst (serveSite alpha_serving ''b2'' None (Resolved [] [])) = Inr 4001"
    by (simp add: scenario_defs)
  moreover have "map port (getAllSites alpha_serving) = [Some 4000, None]"
    by (simp add: scenario_defs)
  ultimately show ?thesis using h st by simp
qed

text \<open>
  C1 (the code departs from the claim). A requested port is never compared with the
  ports in use: serving \<open>alpha\<close> and then \<open>beta\<close> through the route, both with the
  requested port 5000 and both commands succeeding, leaves two \<open>serving\<close> sites on port
  5000.
\<close>

theorem requested_port_shared_by_two_serving_sites:
  "map siteId (getAllSites both_on_5000) = [''a1'', ''b2'']
   \<and> map status (getAllSites both_on_5000) = [Serving, Serving]
   \<and> map port (getAllSites both_on_5000) = [Some 5000, Some 5000]"
  by (simp add: scenario_defs)

subsection \<open>File watchers\<close>

text \<open>
  C4 (the code departs from the claim). The closing listener is registered with
  \<open>once\<close>, so the stop of another site uses it up: with \<open>alpha\<close> and \<open>beta\<close> served, then
  \<open>beta\<close> stopped and then \<open>alpha\<close> stopped, \<open>alpha\<close> is \<open>ready\<close> but its watcher is still
  open, and a file change still emits \<open>fileChanged\<close> for \<open>alpha\<close>.
\<close>

theorem watcher_survives_stop_after_other_stop:
  "map_option status (getSite both_stopped ''a1'') = Some Ready
   \<and> map w_site (watchers both_stopped) = [''a1'', ''b2'']
   \<and> map w_open (watchers both_stopped) = [True, False]
   \<and> emitted (watcher_change 0 ''index.md'' both_stopped)
       = emitted both_stopped @ [FileChanged ''a1'' ''index.md'']"
  by (simp add: scenario_defs)

subsection \<open>Site names\<close>

text \<open>
  C5 (the code departs from the claim). The create route compares only a name the
  caller supplied, and \<open>createSite\<close> prefers the name of the structure document: with a
  site \<open>blog\<close> registered, a request whose generated structure is named \<open>blog\<close> is
  answered 201 and a second record named \<open>blog\<close> is inserted, with no caller name and
  also with the free caller name \<open>shop\<close>.
\<close>

theorem generated_name_collision_not_rejected:
  "map name (getAllSites blog_registry) = [''blog'']
   \<and> fst (create_POST blog_registry ''another blog'' None (Generated (Some ''blog''))
            ''c3'' 5 True 6 7 (Resolved [] []))
       = Created201 (Some \<lparr>siteId = ''c3'', name = ''blog'', path = ''projects/blog'',
                            status = Ready, port = None, createdAt = 5, lastBuilt = Some 7\<rparr>)
                    \<lparr>success = True, output' = [], error = None, buildTime = 1\<rparr>
   \<and> map name (getAllSites (snd (create_POST blog_registry ''another blog'' None
            (Generated (Some ''blog'')) ''c3'' 5 True 6 7 (Resolved [] []))))
       = [''blog'', ''blog'']
   \<and> map name (getAllSites (snd (create_POST blog_registry ''a shop'' (Some ''shop'')
            (Generated (Some ''blog'')) ''c3'' 5 True 6 7 (Resolved [] []))))
       = [''blog'', ''blog'']"
  by (simp add: scenario_defs)

section \<open>Properties of the broadcast layer\<close>

subsection \<open>sendToClient and broadcast\<close>

lemma sendToClient_frame [simp]:
  "clients (sendToClient now r msg st) = clients st"
  "next_ref (sendToClient now r msg st) = next_ref st"
  "isAlive (sockets (sendToClient now r msg st) q) = isAlive (sockets st q)"
  "readyState (sockets (sendToClient now r msg st) q) = readyState (sockets st q)"
  "subscribedSites (sockets (sendToClient now r msg st) q) = subscribedSites (sockets st q)"
  by (simp_all add: sendToClient_def)

lemma sendToClient_other [simp]:
  "q \<noteq> r \<Longrightarrow> sockets (sendToClient now r msg st) q = sockets st q"
  by (simp add: sendToClient_def)

lemma sendToClient_received:
  "received (sockets (sendToClient now r msg st) r)
     = received (sockets st r)
       @ (if readyState (sockets st r) = OPEN then [msg\<lparr>msg_timestamp := Some now\<rparr>] else [])"
  by (simp add: sendToClient_def)

lemma sendToClient_closed [simp]:
  "readyState (sockets st r) = CLOSED \<Longrightarrow> sendToClient now r msg st = st"
  by (simp add: sendToClient_def)

lemma broadcast_visit_frame [simp]:
  "clients (broadcast_visit now msg f r st) = clients st"
  "next_ref (broadcast_visit now msg f r st) = next_ref st"
  "isAlive (sockets (broadcast_visit now msg f r st) q) = isAlive (sockets st q)"
  "readyState (sockets (broadcast_visit now msg f r st) q) = readyState (sockets st q)"
  "subscribedSites (sockets (broadcast_visit now msg f r st) q) = subscribedSites (sockets st q)"
  by (simp_all add: broadcast_visit_def)

lemma broadcast_visit_other [simp]: "q \<noteq> r \<Longrightarrow> sockets (broadcast_visit now msg f r st) q = sockets st q"
  by (simp add: broadcast_visit_def)

lemma broadcast_visit_self:
  "sockets (broadcast_visit now msg f q st) q
     = (if (case f of None \<Rightarrow> True | Some g \<Rightarrow> g (sockets st q))
           \<and> readyState (sockets st q) = OPEN
        then (sockets st q)\<lparr>received := received (sockets st q)
                                         @ [msg\<lparr>msg_timestamp := Some now\<rparr>]\<rparr>
        else sockets st q)"
  by (simp add: broadcast_visit_def sendToClient_def)

lemma fold_broadcast_visit_frame:
  "clients (fold (broadcast_visit now msg f) cs st) = clients st
   \<and> next_ref (fold (broadcast_visit now msg f) cs st) = next_ref st
   \<and> isAlive (sockets (fold (broadcast_visit now msg f) cs st) q) = isAlive (sockets st q)
   \<and> readyState (sockets (fold (broadcast_visit now msg f) cs st) q) = readyState (sockets st q)
   \<and> subscribedSites (sockets (fold (broadcast_visit now msg f) cs st) q) = subscribedSites (sockets st q)"
  by (induction cs arbitrary: st) simp_all

lemma fold_broadcast_visit_other:
  "q \<notin> set cs \<Longrightarrow> sockets (fold (broadcast_visit now msg f) cs st) q = sockets st q"
  by (induction cs arbitrary: st) simp_all

lemma fold_broadcast_visit_member:
  "distinct cs \<Longrightarrow> q \<in> set cs
   \<Longrightarrow> sockets (fold (broadcast_visit now msg f) cs st) q = sockets (broadcast_visit now msg f q st) q"
proof (induction cs arbitrary: st)
  case Nil
  then show ?case by simp
next
  case (Cons c cs)
  show ?case
  proof (cases "q = c")
    case True
    with Cons.prems have "q \<notin> set cs" by simp
    with True show ?thesis by (simp add: fold_broadcast_visit_other)
  next
    case False
    with Cons.prems have "q \<in> set cs" "distinct cs" by simp_all
    with Cons.IH [of "broadcast_visit now msg f c st"] False show ?thesis
      by (cases f) (simp_all add: broadcast_visit_self)
  qed
qed

lemma broadcast_frame [simp]:
  "clients (broadcast now msg f st) = clients st"
  "next_ref (broadcast now msg f st) = next_ref st"
  "isAlive (sockets (broadcast now msg f st) q) = isAlive (sockets st q)"
  "readyState (sockets (broadcast now msg f st) q) = readyState (sockets st q)"
  "subscribedSites (sockets (broadcast now msg f st) q) = subscribedSites (sockets st q)"
  by (simp_all add: broadcast_def fold_broadcast_visit_frame)

lemma broadcast_not_member:
  "q \<notin> set (clients st) \<Longrightarrow> sockets (broadcast now msg f st) q = sockets st q"
  by (simp add: broadcast_def fold_broadcast_visit_other)

lemma broadcast_received:
  assumes "distinct (clients st)" and "q \<in> set (clients st)"
  shows "received (sockets (broadcast now msg f st) q)
           = received (sockets st q)
             @ (if (case f of None \<Rightarrow> True | Some g \<Rightarrow> g (sockets st q))
                   \<and> readyState (sockets st q) = OPEN
                then [msg\<lparr>msg_timestamp := Some now\<rparr>] else [])"
  using assms
  by (simp add: broadcast_def fold_broadcast_visit_member broadcast_visit_self)

lemma jekyll_listener_frame [simp]:
  "clients (jekyll_listener now ev st) = clients st"
  "next_ref (jekyll_listener now ev st) = next_ref st"
  "isAlive (sockets (jekyll_listener now ev st) q) = isAlive (sockets st q)"
  "readyState (sockets (jekyll_listener now ev st) q) = readyState (sockets st q)"
  by (cases ev; simp add: broadcastToSiteSubscribers_def)+

lemma jekyll_listener_not_member:
  "q \<notin> set (clients st) \<Longrightarrow> sockets (jekyll_listener now ev st) q = sockets st q"
  by (cases ev) (simp_all add: broadcastToSiteSubscribers_def broadcast_not_member)

text \<open>
  C8. A live connection is a member of \<open>clients\<close> whose socket is open. When
  \<open>fileChanged\<close> for site \<open>i\<close> is published, such a connection is sent the message
  exactly when \<open>i\<close> is in its subscription set at that moment; each of the six
  lifecycle events is sent to it whatever its subscriptions are.
\<close>

theorem fileChanged_only_to_subscribers:
  assumes "ws_inv st" and "r \<in> set (clients st)" and "readyState (sockets st r) = OPEN"
  shows "received (sockets (jekyll_listener now (FileChanged i fp) st) r)
           = received (sockets st r)
             @ (if i \<in> subscribedSites (sockets st r)
                then [\<lparr>msg_type = ''fileChanged'', msg_data = FileData i fp,
                       msg_siteId = Some i, msg_timestamp = Some now\<rparr>]
                else [])
       \<and> (ev \<in> {SiteStatusChanged s, SiteCreated s, SiteBuilt s, SiteServing s,
                  SiteStopped s, SiteDeleted s}
            \<longrightarrow> (\<exists>t. received (sockets (jekyll_listener now ev st) r)
                       = received (sockets st r)
                         @ [\<lparr>msg_type = t, msg_data = SiteData s,
                              msg_siteId = Some (siteId s), msg_timestamp = Some now\<rparr>]))"
proof -
  from assms(1) have d: "distinct (clients st)"
    by (simp add: ws_inv_def)
  show ?thesis
    using assms(2,3)
    by (auto simp: broadcastToSiteSubscribers_def broadcast_received [OF d] message_def)
qed

lemmas ws_scenario_defs =
  two_clients_def run_def run_intervals_def new_ws_manager_def new_socket_def
  handleConnection_def sendToClient_def message_def heartbeat_def heartbeat_visit_def
  on_pong_def on_close_def broadcast_def broadcast_visit_def broadcastToSiteSubscribers_def
  ws_inv_def Let_def

lemma two_clients_facts:
  "ws_inv two_clients" "clients two_clients = [0, 1]"
  "readyState (sockets two_clients 0) = OPEN" "readyState (sockets two_clients (Suc 0)) = OPEN"
  "subscribedSites (sockets two_clients 0) = {''a1''}"
  "subscribedSites (sockets two_clients (Suc 0)) = {}"
  by (simp_all add: ws_scenario_defs)

theorem fileChanged_only_to_subscribers_witness:
  "clients two_clients = [0, 1]
   \<and> subscribedSites (sockets two_clients 0) = {''a1''}
   \<and> subscribedSites (sockets two_clients 1) = {}
   \<and> received (sockets (jekyll_listener 9 (FileChanged ''a1'' ''index.md'') two_clients) 0)
       = received (sockets two_clients 0)
         @ [\<lparr>msg_type = ''fileChanged'', msg_data = FileData ''a1'' ''index.md'',
              msg_siteId = Some ''a1'', msg_timestamp = Some 9\<rparr>]
   \<and> received (sockets (jekyll_listener 9 (FileChanged ''a1'' ''index.md'') two_clients) 1)
       = received (sockets two_clients 1)"
proof -
  have m: "0 \<in> set (clients two_clients)" "1 \<in> set (clients two_clients)"
    by (simp_all add: two_clients_facts)
  have o: "readyState (sockets two_clients 0) = OPEN" "readyState (sockets two_clients 1) = OPEN"
    by (simp_all add: two_clients_facts)
  from fileChanged_only_to_subscribers [OF two_clients_facts(1) m(1) o(1), of 9 "''a1''" "''index.md''"]
       fileChanged_only_to_subscribers [OF two_clients_facts(1) m(2) o(2), of 9 "''a1''" "''index.md''"]
  show ?thesis by (simp add: two_clients_facts)
qed

subsection \<open>The heartbeat sweep\<close>

lemma heartbeat_visit_other [simp]:
  "q \<noteq> r \<Longrightarrow> sockets (heartbeat_visit r st) q = sockets st q"
  by (simp add: heartbeat_visit_def)

lemma heartbeat_visit_frame [simp]:
  "next_ref (heartbeat_visit r st) = next_ref st"
  "received (sockets (heartbeat_visit r st) q) = received (sockets st q)"
  by (simp_all add: heartbeat_visit_def)

lemma heartbeat_visit_clients:
  "clients (heartbeat_visit r st)
     = (if isAlive (sockets st r) then clients st else removeAll r (clients st))"
  by (simp add: heartbeat_visit_def)

lemma fold_heartbeat_visit_other:
  "q \<notin> set cs \<Longrightarrow> sockets (fold heartbeat_visit cs st) q = sockets st q"
  by (induction cs arbitrary: st) simp_all

lemma fold_heartbeat_visit_frame:
  "next_ref (fold heartbeat_visit cs st) = next_ref st
   \<and> received (sockets (fold heartbeat_visit cs st) q) = received (sockets st q)"
  by (induction cs arbitrary: st) simp_all

lemma fold_heartbeat_visit_member:
  "distinct cs \<Longrightarrow> q \<in> set cs
   \<Longrightarrow> sockets (fold heartbeat_visit cs st) q = sockets (heartbeat_visit q st) q"
proof (induction cs arbitrary: st)
  case Nil
  then show ?case by simp
next
  case (Cons c cs)
  show ?case
  proof (cases "q = c")
    case True
    with Cons.prems have "q \<notin> set cs" by simp
    with True show ?thesis by (simp add: fold_heartbeat_visit_other)
  next
    case False
    with Cons.prems have "q \<in> set cs" "distinct cs" by simp_all
    with Cons.IH [of "heartbeat_visit c st"] False show ?thesis
      by (simp add: heartbeat_visit_def)
  qed
qed

lemma fold_heartbeat_visit_clients:
  "distinct cs \<Longrightarrow>
   clients (fold heartbeat_visit cs st)
     = filter (\<lambda>r. r \<notin> set cs \<or> isAlive (sockets st r)) (clients st)"
proof (induction cs arbitrary: st)
  case Nil
  then show ?case by simp
next
  case (Cons c cs)
  then have c: "c \<notin> set cs" and d: "distinct cs" by simp_all
  have same: "sockets (heartbeat_visit c st) r = sockets st r" if "r \<in> set cs" for r
  proof -
    from that c have "r \<noteq> c" by auto
    then show ?thesis by simp
  qed
  have "clients (fold heartbeat_visit (c # cs) st)
          = filter (\<lambda>r. r \<notin> set cs \<or> isAlive (sockets (heartbeat_visit c st) r))
              (clients (heartbeat_visit c st))"
    using Cons.IH [OF d, of "heartbeat_visit c st"] by simp
  also have "\<dots> = filter (\<lambda>r. r \<notin> set (c # cs) \<or> isAlive (sockets st r)) (clients st)"
  proof (cases "isAlive (sockets st c)")
    case True
    show ?thesis
      unfolding heartbeat_visit_clients using True c
      by (auto intro!: filter_cong simp: same)
  next
    case False
    show ?thesis
      unfolding heartbeat_visit_clients using False c
      by (auto intro!: filter_cong simp: same removeAll_filter_not_eq)
  qed
  finally show ?case .
qed

lemma heartbeat_clients:
  "distinct (clients st)
   \<Longrightarrow> clients (heartbeat st) = filter (\<lambda>r. isAlive (sockets st r)) (clients st)"
  by (auto simp: heartbeat_def fold_heartbeat_visit_clients intro: filter_cong)

lemma heartbeat_socket_member:
  "distinct (clients st) \<Longrightarrow> q \<in> set (clients st)
   \<Longrightarrow> sockets (heartbeat st) q = sockets (heartbeat_visit q st) q"
  by (simp add: heartbeat_def fold_heartbeat_visit_member)

lemma heartbeat_socket_other:
  "q \<notin> set (clients st) \<Longrightarrow> sockets (heartbeat st) q = sockets st q"
  by (simp add: heartbeat_def fold_heartbeat_visit_other)

lemma heartbeat_frame [simp]:
  "next_ref (heartbeat st) = next_ref st"
  "received (sockets (heartbeat st) q) = received (sockets st q)"
  by (simp_all add: heartbeat_def fold_heartbeat_visit_frame)

subsection \<open>The other callbacks\<close>

lemma handleConnection_frame [simp]:
  "clients (handleConnection now cid ss st) = clients st @ [next_ref st]"
  "next_ref (handleConnection now cid ss st) = Suc (next_ref st)"
  "q \<noteq> next_ref st \<Longrightarrow> sockets (handleConnection now cid ss st) q = sockets st q"
  by (simp_all add: handleConnection_def Let_def)

lemma handleMessage_frame [simp]:
  "clients (handleMessage now r msg ss st) = clients st"
  "next_ref (handleMessage now r msg ss st) = next_ref st"
  "isAlive (sockets (handleMessage now r msg ss st) q) = isAlive (sockets st q)"
  "readyState (sockets (handleMessage now r msg ss st) q) = readyState (sockets st q)"
  by (induction now r msg ss st rule: handleMessage.induct; simp)+

lemma handleMessage_received_other:
  "q \<noteq> r \<Longrightarrow> received (sockets (handleMessage now r msg ss st) q) = received (sockets st q)"
  by (induction now r msg ss st rule: handleMessage.induct) simp_all

lemma handleMessage_received_closed:
  "readyState (sockets st r) = CLOSED
   \<Longrightarrow> received (sockets (handleMessage now r msg ss st) q) = received (sockets st q)"
  by (induction now r msg ss st rule: handleMessage.induct)
     (simp_all add: sendToClient_def)

lemma on_pong_frame [simp]:
  "clients (on_pong r st) = clients st"
  "next_ref (on_pong r st) = next_ref st"
  "readyState (sockets (on_pong r st) q) = readyState (sockets st q)"
  "received (sockets (on_pong r st) q) = received (sockets st q)"
  "isAlive (sockets (on_pong r st) q) = (q = r \<or> isAlive (sockets st q))"
  by (simp_all add: on_pong_def)

lemma on_close_frame [simp]:
  "clients (on_close r st) = removeAll r (clients st)"
  "next_ref (on_close r st) = next_ref st"
  "isAlive (sockets (on_close r st) q) = isAlive (sockets st q)"
  "received (sockets (on_close r st) q) = received (sockets st q)"
  "readyState (sockets (on_close r st) q) = (if q = r then CLOSED else readyState (sockets st q))"
  by (simp_all add: on_close_def)

lemma ws_inv_step: "ws_inv st \<Longrightarrow> ws_inv (ws_step a st)"
proof (cases a)
  case (Connect now cid ss)
  assume "ws_inv st"
  then show ?thesis
    using Connect by (auto simp: ws_inv_def list_all_iff less_Suc_eq)
next
  case Tick
  assume "ws_inv st"
  then show ?thesis
    using Tick by (auto simp: ws_inv_def list_all_iff heartbeat_clients)
qed (auto simp: ws_inv_def list_all_iff distinct_removeAll)

lemma ws_inv_run: "ws_inv st \<Longrightarrow> ws_inv (run acts st)"
  unfolding run_def by (induction acts arbitrary: st) (simp_all add: ws_inv_step)

lemma ws_inv_new: "ws_inv new_ws_manager"
  by (simp add: ws_inv_def new_ws_manager_def)

lemma heartbeat_marks_survivors:
  assumes "ws_inv st" and "r \<in> set (clients (heartbeat st))"
  shows "r < next_ref (heartbeat st) \<and> \<not> isAlive (sockets (heartbeat st) r)"
proof -
  from assms(1) have d: "distinct (clients st)" by (simp add: ws_inv_def)
  from assms(2) have m: "r \<in> set (clients st)" and al: "isAlive (sockets st r)"
    by (simp_all add: heartbeat_clients [OF d])
  from assms(1) m have "r < next_ref st" by (simp add: ws_inv_def list_all_iff)
  moreover have "\<not> isAlive (sockets (heartbeat st) r)"
    using al by (simp add: heartbeat_socket_member [OF d m] heartbeat_visit_def)
  ultimately show ?thesis by simp
qed

lemma heartbeat_removes_unconfirmed:
  assumes "ws_inv st" and "\<not> isAlive (sockets st r)"
      and "r \<in> set (clients st) \<or> readyState (sockets st r) = CLOSED"
  shows "r \<notin> set (clients (heartbeat st)) \<and> readyState (sockets (heartbeat st) r) = CLOSED"
proof -
  from assms(1) have d: "distinct (clients st)" by (simp add: ws_inv_def)
  show ?thesis
  proof (cases "r \<in> set (clients st)")
    case True
    then show ?thesis
      using assms(2)
      by (simp add: heartbeat_clients [OF d] heartbeat_socket_member [OF d True]
            heartbeat_visit_def)
  next
    case False
    with assms(3) show ?thesis
      by (simp add: heartbeat_clients [OF d] heartbeat_socket_other)
  qed
qed

lemma heartbeat_keeps_confirmed:
  assumes "ws_inv st" and "r \<in> set (clients st)" and "isAlive (sockets st r)"
  shows "r \<in> set (clients (heartbeat st))"
  using assms by (simp add: ws_inv_def heartbeat_clients)

lemma unconfirmed_step:
  assumes "ws_inv st" and "r < next_ref st" and "\<not> isAlive (sockets st r)"
      and "r \<in> set (clients st) \<or> readyState (sockets st r) = CLOSED"
      and "a \<noteq> Pong r" and "a \<noteq> Tick"
  shows "r < next_ref (ws_step a st) \<and> \<not> isAlive (sockets (ws_step a st) r)
       \<and> (r \<in> set (clients (ws_step a st)) \<or> readyState (sockets (ws_step a st) r) = CLOSED)"
  using assms by (cases a) auto

lemma unconfirmed_run:
  assumes "ws_inv st" and "r < next_ref st" and "\<not> isAlive (sockets st r)"
      and "r \<in> set (clients st) \<or> readyState (sockets st r) = CLOSED"
      and "Pong r \<notin> set acts" and "Tick \<notin> set acts"
  shows "r < next_ref (run acts st) \<and> \<not> isAlive (sockets (run acts st) r)
       \<and> (r \<in> set (clients (run acts st)) \<or> readyState (sockets (run acts st) r) = CLOSED)"
  using assms
proof (induction acts arbitrary: st)
  case Nil
  then show ?case by (simp add: run_def)
next
  case (Cons a acts)
  from Cons.prems have a: "a \<noteq> Pong r" "a \<noteq> Tick" by auto
  note s = unconfirmed_step [OF Cons.prems(1-4) a]
  from Cons.IH [of "ws_step a st"] s Cons.prems ws_inv_step [OF Cons.prems(1), of a]
  show ?case by (simp add: run_def)
qed

lemma removed_step:
  assumes "ws_inv st" and "r < next_ref st" and "r \<notin> set (clients st)"
      and "readyState (sockets st r) = CLOSED"
  shows "r < next_ref (ws_step a st) \<and> r \<notin> set (clients (ws_step a st))
       \<and> readyState (sockets (ws_step a st) r) = CLOSED
       \<and> received (sockets (ws_step a st) r) = received (sockets st r)"
proof (cases a)
  case Tick
  from assms(1) have d: "distinct (clients st)" by (simp add: ws_inv_def)
  from assms Tick show ?thesis
    by (simp add: heartbeat_clients [OF d] heartbeat_socket_other)
next
  case (Message now q msg ss)
  with assms show ?thesis
    by (cases "q = r") (simp_all add: handleMessage_received_closed handleMessage_received_other)
next
  case (Publish now ev)
  with assms show ?thesis
    by (simp add: jekyll_listener_not_member)
qed (use assms in auto)

lemma removed_run:
  assumes "ws_inv st" and "r < next_ref st" and "r \<notin> set (clients st)"
      and "readyState (sockets st r) = CLOSED"
  shows "r < next_ref (run acts st) \<and> r \<notin> set (clients (run acts st))
       \<and> readyState (sockets (run acts st) r) = CLOSED
       \<and> received (sockets (run acts st) r) = received (sockets st r)"
  using assms
proof (induction acts arbitrary: st)
  case Nil
  then show ?case by (simp add: run_def)
next
  case (Cons a acts)
  note s = removed_step [OF Cons.prems, of a]
  from Cons.IH [of "ws_step a st"] s ws_inv_step [OF Cons.prems(1), of a]
  show ?case by (simp add: run_def)
qed

lemma member_step:
  assumes "ws_inv st" and "r \<in> set (clients st)"
      and "a \<noteq> SocketClosed r" and "a \<noteq> Tick"
  shows "r \<in> set (clients (ws_step a st))
       \<and> (isAlive (sockets st r) \<or> a = Pong r \<longrightarrow> isAlive (sockets (ws_step a st) r))"
proof -
  from assms(1,2) have "r \<noteq> next_ref st"
    by (auto simp: ws_inv_def list_all_iff)
  with assms show ?thesis by (cases a) auto
qed

lemma member_run:
  assumes "ws_inv st" and "r \<in> set (clients st)"
      and "SocketClosed r \<notin> set acts" and "Tick \<notin> set acts"
  shows "r \<in> set (clients (run acts st))
       \<and> (isAlive (sockets st r) \<or> Pong r \<in> set acts \<longrightarrow> isAlive (sockets (run acts st) r))"
  using assms
proof (induction acts arbitrary: st)
  case Nil
  then show ?case by (simp add: run_def)
next
  case (Cons a acts)
  from Cons.prems have a: "a \<noteq> SocketClosed r" "a \<noteq> Tick" by auto
  note s = member_step [OF Cons.prems(1,2) a]
  from Cons.IH [of "ws_step a st"] s Cons.prems ws_inv_step [OF Cons.prems(1), of a]
  show ?case by (auto simp: run_def)
qed

lemma confirmed_intervals:
  assumes "ws_inv st" and "r \<in> set (clients st)"
      and "\<forall>acts \<in> set intervals.
             Pong r \<in> set acts \<and> SocketClosed r \<notin> set acts \<and> Tick \<notin> set acts"
  shows "r \<in> set (clients (run_intervals intervals st))"
  using assms
proof (induction intervals arbitrary: st)
  case Nil
  then show ?case by (simp add: run_intervals_def)
next
  case (Cons acts intervals)
  from Cons.prems(3) have p: "Pong r \<in> set acts" "SocketClosed r \<notin> set acts" "Tick \<notin> set acts"
    by auto
  from member_run [OF Cons.prems(1,2) p(2,3)] p(1)
  have m: "r \<in> set (clients (run acts st))" and al: "isAlive (sockets (run acts st) r)"
    by auto
  have i: "ws_inv (run acts st)" by (rule ws_inv_run [OF Cons.prems(1)])
  have "r \<in> set (clients (heartbeat (run acts st)))"
    by (rule heartbeat_keeps_confirmed [OF i m al])
  moreover have "ws_inv (heartbeat (run acts st))"
    using ws_inv_step [OF i, of Tick] by simp
  ultimately show ?case
    using Cons.IH [of "heartbeat (run acts st)"] Cons.prems(3)
    by (simp add: run_intervals_def)
qed

text \<open>
  C9. After a tick every remaining connection is marked unconfirmed. If such a
  connection \<open>r\<close> sends no pong before the next tick, whatever else happens in between,
  that tick removes it from \<open>clients\<close> and terminates its socket, and from then on no
  step of the layer, publications included, sends it anything or puts it back. A
  member that pongs in every interval and does not close is still a member after any
  number of ticks.
\<close>

theorem heartbeat_sweep:
  assumes "ws_inv st"
  shows "(r \<in> set (clients (heartbeat st)) \<longrightarrow> \<not> isAlive (sockets (heartbeat st) r))
       \<and> (r \<in> set (clients (heartbeat st)) \<and> Pong r \<notin> set acts \<and> Tick \<notin> set acts
            \<longrightarrow> r \<notin> set (clients (heartbeat (run acts (heartbeat st))))
                \<and> readyState (sockets (heartbeat (run acts (heartbeat st))) r) = CLOSED
                \<and> r \<notin> set (clients (run later (heartbeat (run acts (heartbeat st)))))
                \<and> received (sockets (run later (heartbeat (run acts (heartbeat st)))) r)
                    = received (sockets (heartbeat (run acts (heartbeat st))) r))
       \<and> (r \<in> set (clients st)
            \<and> (\<forall>acts \<in> set intervals.
                  Pong r \<in> set acts \<and> SocketClosed r \<notin> set acts \<and> Tick \<notin> set acts)
            \<longrightarrow> r \<in> set (clients (run_intervals intervals st)))"
proof -
  let ?st1 = "heartbeat st"
  let ?st2 = "run acts ?st1"
  let ?st3 = "heartbeat ?st2"
  have i1: "ws_inv ?st1" using ws_inv_step [OF assms, of Tick] by simp
  have i2: "ws_inv ?st2" by (rule ws_inv_run [OF i1])
  have i3: "ws_inv ?st3" using ws_inv_step [OF i2, of Tick] by simp
  have a: "r \<in> set (clients ?st1) \<longrightarrow> \<not> isAlive (sockets ?st1 r)"
    using heartbeat_marks_survivors [OF assms] by simp
  have b: "r \<notin> set (clients ?st3) \<and> readyState (sockets ?st3 r) = CLOSED
           \<and> r \<notin> set (clients (run later ?st3))
           \<and> received (sockets (run later ?st3) r) = received (sockets ?st3 r)"
    if m: "r \<in> set (clients ?st1)" and np: "Pong r \<notin> set acts" and nt: "Tick \<notin> set acts"
  proof -
    from heartbeat_marks_survivors [OF assms m]
    have lt: "r < next_ref ?st1" and un: "\<not> isAlive (sockets ?st1 r)" by simp_all
    from m have m': "r \<in> set (clients ?st1) \<or> readyState (sockets ?st1 r) = CLOSED" by simp
    note u = unconfirmed_run [OF i1 lt un m' np nt]
    from u heartbeat_removes_unconfirmed [OF i2, of r]
    have gone: "r \<notin> set (clients ?st3)" "readyState (sockets ?st3 r) = CLOSED"
      by simp_all
    from u have lt3: "r < next_ref ?st3" by simp
    from removed_run [OF i3 lt3 gone, of later] gone show ?thesis by simp
  qed
  have c: "r \<in> set (clients (run_intervals intervals st))"
    if "r \<in> set (clients st)"
      and "\<forall>acts \<in> set intervals.
             Pong r \<in> set acts \<and> SocketClosed r \<notin> set acts \<and> Tick \<notin> set acts"
    using confirmed_intervals [OF assms that] .
  from a b c show ?thesis by blast
qed

theorem heartbeat_sweep_witness:
  "clients (heartbeat two_clients) = [0, 1]
   \<and> 1 \<notin> set (clients (heartbeat (run [Pong 0] (heartbeat two_clients))))
   \<and> readyState (sockets (heartbeat (run [Pong 0] (heartbeat two_clients))) 1) = CLOSED
   \<and> received (sockets (run [Publish 7 (FileChanged ''a1'' ''x'')]
                          (heartbeat (run [Pong 0] (heartbeat two_clients)))) 1)
       = received (sockets (heartbeat (run [Pong 0] (heartbeat two_clients))) 1)
   \<and> 0 \<in> set (clients (run_intervals [[Pong 0], [Pong 0]] two_clients))"
proof -
  have h: "clients (heartbeat two_clients) = [0, 1]"
    by (simp add: ws_scenario_defs)
  then have m: "1 \<in> set (clients (heartbeat two_clients))" by simp
  have p: "Pong 1 \<notin> set [Pong 0]" "Tick \<notin> set [Pong 0]" by simp_all
  have m0: "0 \<in> set (clients two_clients)" by (simp add: two_clients_facts)
  have iv: "\<forall>acts \<in> set [[Pong 0], [Pong 0]].
              Pong 0 \<in> set acts \<and> SocketClosed 0 \<notin> set acts \<and> Tick \<notin> set acts"
    by simp
  from heartbeat_sweep [OF two_clients_facts(1), of 1 "[Pong 0]" "[Publish 7 (FileChanged ''a1'' ''x'')]" "[]"]
       heartbeat_sweep [OF two_clients_facts(1), of 0 "[]" "[]" "[[Pong 0], [Pong 0]]"] m p m0 iv h
  show ?thesis by simp
qed

end
